theory Spec2Isabelle
  imports Main "HOL-Library.Sublist"
begin

section \<open>JavaScript values and the operations the program applies to them\<close>

text \<open>
  Everything the program receives from outside (the output of the \<^verbatim>\<open>sfdx\<close> commands after
  \<^verbatim>\<open>JSON.parse\<close>, the \<^verbatim>\<open>data\<close> of an axios response) is a JSON value, plus
  \<^verbatim>\<open>undefined\<close> for what a property read finds absent. Strings are lists of 8-bit
  characters; \<open>JNum n\<close> is the integer-valued number \<open>n\<close>, printed in plain decimal
  (JavaScript does so below \<open>10^21\<close>). An object is the list of its properties, read with
  \<open>map_of\<close>.
\<close>

datatype jsval =
    JUndefined
  | JNull
  | JBool bool
  | JNum int
  | JStr string
  | JArr "jsval list"
  | JObj "(string \<times> jsval) list"

text \<open>
  What the source can throw. \<open>Failure m\<close> is an \<^verbatim>\<open>Error\<close> with message \<open>m\<close> raised by a
  library call (\<^verbatim>\<open>execSync\<close>, \<^verbatim>\<open>JSON.parse\<close>, \<^verbatim>\<open>figlet.textSync\<close>, a rejected axios
  request). The others are the \<^verbatim>\<open>TypeError\<close>s of the language itself; their message is
  the engine's.
\<close>

datatype js_error =
    Failure string
  | TypeError_nullish string
  | TypeError_not_iterable
  | TypeError_not_a_function string

text \<open>Sequencing of steps that may throw: the first exception ends the sequence.\<close>

definition try_bind :: "js_error + 'a \<Rightarrow> ('a \<Rightarrow> js_error + 'b) \<Rightarrow> js_error + 'b" where
  "try_bind r f = (case r of Inl e \<Rightarrow> Inl e | Inr v \<Rightarrow> f v)"

abbreviation quote :: char where
  "quote \<equiv> CHR 0x27"

text \<open>\<^verbatim>\<open>if (v)\<close>, \<^verbatim>\<open>!v\<close>, \<^verbatim>\<open>v || w\<close>: the falsy values are \<^verbatim>\<open>undefined\<close>, \<^verbatim>\<open>null\<close>,
  \<^verbatim>\<open>false\<close>, \<^verbatim>\<open>0\<close> and the empty string.\<close>

fun truthy :: "jsval \<Rightarrow> bool" where
  "truthy JUndefined = False"
| "truthy JNull = False"
| "truthy (JBool b) = b"
| "truthy (JNum n) = (n \<noteq> 0)"
| "truthy (JStr s) = (s \<noteq> [])"
| "truthy (JArr xs) = True"
| "truthy (JObj kvs) = True"

fun nullish :: "jsval \<Rightarrow> bool" where
  "nullish JUndefined = True"
| "nullish JNull = True"
| "nullish v = False"

text \<open>
  Reading property \<open>k\<close> of a value that is neither \<^verbatim>\<open>null\<close> nor \<^verbatim>\<open>undefined\<close>. The keys this
  program reads (\<^verbatim>\<open>records\<close>, \<^verbatim>\<open>Id\<close>, \<^verbatim>\<open>VersionNumber\<close>, \<^verbatim>\<open>ActiveVersionId\<close>,
  \<^verbatim>\<open>result\<close>, \<^verbatim>\<open>nonScratchOrgs\<close>, \<^verbatim>\<open>connectedStatus\<close>, \<^verbatim>\<open>alias\<close>, \<^verbatim>\<open>accessToken\<close>,
  \<^verbatim>\<open>instanceUrl\<close>) are no built-in property of a string, number, boolean, array or
  \<^verbatim>\<open>Object.prototype\<close>: only an object that carries the key answers with a value.
\<close>

fun own_prop :: "jsval \<Rightarrow> string \<Rightarrow> jsval" where
  "own_prop (JObj kvs) k = (case map_of kvs k of None \<Rightarrow> JUndefined | Some v \<Rightarrow> v)"
| "own_prop v k = JUndefined"

text \<open>\<^verbatim>\<open>v.k\<close> and the destructuring \<^verbatim>\<open>const { k } = v\<close>: a \<^verbatim>\<open>TypeError\<close> on \<^verbatim>\<open>null\<close> and
  \<^verbatim>\<open>undefined\<close>.\<close>

definition get_prop :: "jsval \<Rightarrow> string \<Rightarrow> js_error + jsval" where
  "get_prop v k = (if nullish v then Inl (TypeError_nullish k) else Inr (own_prop v k))"

text \<open>\<^verbatim>\<open>v?.k\<close>\<close>

definition opt_prop :: "jsval \<Rightarrow> string \<Rightarrow> jsval" where
  "opt_prop v k = (if nullish v then JUndefined else own_prop v k)"

text \<open>\<^verbatim>\<open>v || []\<close>\<close>

definition or_empty :: "jsval \<Rightarrow> jsval" where
  "or_empty v = (if truthy v then v else JArr [])"

text \<open>\<^verbatim>\<open>const [x] = v\<close>: the first value the iterator of \<open>v\<close> yields, \<^verbatim>\<open>undefined\<close> when it
  yields none; arrays and strings are iterable, the other values are not.\<close>

fun first_elem :: "jsval \<Rightarrow> js_error + jsval" where
  "first_elem (JArr []) = Inr JUndefined"
| "first_elem (JArr (x # xs)) = Inr x"
| "first_elem (JStr []) = Inr JUndefined"
| "first_elem (JStr (c # cs)) = Inr (JStr [c])"
| "first_elem v = Inl TypeError_not_iterable"

text \<open>
  \<^verbatim>\<open>a === b\<close> for two values that come from different parsed documents (two responses,
  or a response and a literal of the source): primitives are compared by value; an array
  or an object is only ever identical to itself, so never to a value of another document.
\<close>

fun strict_equals :: "jsval \<Rightarrow> jsval \<Rightarrow> bool" where
  "strict_equals JUndefined JUndefined = True"
| "strict_equals JNull JNull = True"
| "strict_equals (JBool a) (JBool b) = (a = b)"
| "strict_equals (JNum a) (JNum b) = (a = b)"
| "strict_equals (JStr a) (JStr b) = (a = b)"
| "strict_equals a b = False"

fun digits_of :: "nat \<Rightarrow> string" where
  "digits_of n =
     (if n < 10 then [char_of (48 + n)]
      else digits_of (n div 10) @ [char_of (48 + n mod 10)])"

fun join_comma :: "string list \<Rightarrow> string" where
  "join_comma [] = []"
| "join_comma [s] = s"
| "join_comma (s # t # ss) = s @ '','' @ join_comma (t # ss)"

text \<open>The string a template literal \<^verbatim>\<open>`${v}`\<close> inserts for \<open>v\<close>.\<close>

fun ToString :: "jsval \<Rightarrow> string" where
  "ToString JUndefined = ''undefined''"
| "ToString JNull = ''null''"
| "ToString (JBool b) = (if b then ''true'' else ''false'')"
| "ToString (JNum n) = (if n < 0 then ''-'' @ digits_of (nat (- n)) else digits_of (nat n))"
| "ToString (JStr s) = s"
| "ToString (JArr xs) = join_comma (map (\<lambda>x. if nullish x then [] else ToString x) xs)"
| "ToString (JObj kvs) = ''[object Object]''"

section \<open>The outside world: effects and their trace\<close>

type_synonym headers = "(string \<times> string) list"

text \<open>The lines the program prints, one constructor for each \<^verbatim>\<open>console.log\<close> and
  \<^verbatim>\<open>console.error\<close> of the source, carrying the values its template inserts.\<close>

datatype line =
    Ascii_art string
  | Error_generating_ascii_art js_error
  | Source_link
  | Error_retrieving_orgs js_error
  | Error_retrieving_org_details js_error
  | Flow_not_found string
  | FlowDefinition_not_found string
  | Successfully_activated string jsval
  | Failed_to_verify string jsval
  | Error_activating_flow js_error
  | Operation_cancelled
  | Activating_flows_in_org jsval

datatype question =
    Flow_question
  | Org_questions "(jsval \<times> jsval) list"

datatype event =
    Console_log line
  | Console_error line
  | Exec_sync string
  | Axios_get string headers string
  | Axios_patch string jsval headers
  | Prompts question

text \<open>What the operator answers to the two org questions: \<^verbatim>\<open>prompts\<close> returns an object
  whose \<^verbatim>\<open>confirmation\<close> is absent after a cancellation, \<^verbatim>\<open>false\<close> after a refusal, and
  \<^verbatim>\<open>true\<close> along with the \<^verbatim>\<open>selectedOrgs\<close> otherwise.\<close>

datatype org_answer =
    Cancelled
  | Declined
  | Confirmed "jsval list"

text \<open>
  The libraries and processes the program calls, over a state \<open>'w\<close> of the outside world
  that every call may read and change. \<open>Inl m\<close> is a call that throws an \<^verbatim>\<open>Error\<close> with
  message \<open>m\<close> (for axios: a network error, a status outside 2xx, a response it rejects).
  \<open>execSync_parse\<close> is \<^verbatim>\<open>JSON.parse(execSync(cmd, ...))\<close>; an axios call answers with the
  \<^verbatim>\<open>data\<close> of its response. \<open>flow_entries\<close> are the texts the operator submits to the
  first prompt, one after the other, before giving up.
\<close>

record 'w env =
  figlet_textSync :: "string \<Rightarrow> string + string"
  execSync_parse :: "string \<Rightarrow> 'w \<Rightarrow> (string + jsval) \<times> 'w"
  axios_get :: "string \<Rightarrow> headers \<Rightarrow> string \<Rightarrow> 'w \<Rightarrow> (string + jsval) \<times> 'w"
  axios_patch :: "string \<Rightarrow> jsval \<Rightarrow> headers \<Rightarrow> 'w \<Rightarrow> (string + jsval) \<times> 'w"
  flow_entries :: "string list"
  org_answers :: "(jsval \<times> jsval) list \<Rightarrow> org_answer"

record 'w state =
  world :: 'w
  trace :: "event list"

definition emit :: "event \<Rightarrow> 'w state \<Rightarrow> 'w state" where
  "emit e st = st\<lparr>trace := trace st @ [e]\<rparr>"

definition thrown :: "string + jsval \<Rightarrow> js_error + jsval" where
  "thrown r = (case r of Inl m \<Rightarrow> Inl (Failure m) | Inr v \<Rightarrow> Inr v)"

definition call_exec :: "'w env \<Rightarrow> string \<Rightarrow> 'w state \<Rightarrow> (js_error + jsval) \<times> 'w state" where
  "call_exec env cmd st =
     (case execSync_parse env cmd (world st) of
        (r, w) \<Rightarrow> (thrown r, \<lparr>world = w, trace = trace st @ [Exec_sync cmd]\<rparr>))"

definition call_get ::
  "'w env \<Rightarrow> string \<Rightarrow> headers \<Rightarrow> string \<Rightarrow> 'w state \<Rightarrow> (js_error + jsval) \<times> 'w state" where
  "call_get env url hs q st =
     (case axios_get env url hs q (world st) of
        (r, w) \<Rightarrow> (thrown r, \<lparr>world = w, trace = trace st @ [Axios_get url hs q]\<rparr>))"

definition call_patch ::
  "'w env \<Rightarrow> string \<Rightarrow> jsval \<Rightarrow> headers \<Rightarrow> 'w state \<Rightarrow> (js_error + jsval) \<times> 'w state" where
  "call_patch env url body hs st =
     (case axios_patch env url body hs (world st) of
        (r, w) \<Rightarrow> (thrown r, \<lparr>world = w, trace = trace st @ [Axios_patch url body hs]\<rparr>))"

text \<open>Sequencing inside a \<^verbatim>\<open>try\<close> block: the first exception ends the block.\<close>

definition and_then ::
  "('s \<Rightarrow> (js_error + 'a) \<times> 's) \<Rightarrow> ('a \<Rightarrow> 's \<Rightarrow> (js_error + 'b) \<times> 's) \<Rightarrow>
   's \<Rightarrow> (js_error + 'b) \<times> 's" where
  "and_then m f st = (case m st of (Inl e, st') \<Rightarrow> (Inl e, st') | (Inr a, st') \<Rightarrow> f a st')"

definition pure_step :: "js_error + 'a \<Rightarrow> 's \<Rightarrow> (js_error + 'a) \<times> 's" where
  "pure_step r st = (r, st)"

definition log_step :: "line \<Rightarrow> 'w state \<Rightarrow> (js_error + unit) \<times> 'w state" where
  "log_step l st = (Inr (), emit (Console_log l) st)"

section \<open>The program\<close>

subsection \<open>\<^verbatim>\<open>displayAsciiArt\<close>\<close>

definition displayAsciiArt :: "'w env \<Rightarrow> string \<Rightarrow> 'w state \<Rightarrow> 'w state" where
  "displayAsciiArt env text st =
     (case figlet_textSync env text of
        Inr asciiArt \<Rightarrow> emit (Console_log (Ascii_art asciiArt)) st
      | Inl m \<Rightarrow> emit (Console_error (Error_generating_ascii_art (Failure m))) st)"

subsection \<open>\<^verbatim>\<open>getAuthenticatedOrgs\<close> and \<^verbatim>\<open>getSfInstance\<close>\<close>

text \<open>\<^verbatim>\<open>process.exit(1)\<close> ends the run at once: a function either returns a value or has
  exited with a code, in both cases with the state it has reached.\<close>

datatype ('a, 'w) outcome_of_call =
    Exited int "'w state"
  | Returned 'a "'w state"

text \<open>\<^verbatim>\<open>orgs.filter(org => org.connectedStatus === 'Connected')\<close>: the callback runs on the
  entries in order and throws on an entry that is \<^verbatim>\<open>null\<close>.\<close>

fun filter_connected :: "jsval list \<Rightarrow> js_error + jsval list" where
  "filter_connected [] = Inr []"
| "filter_connected (org # orgs) =
     (case get_prop org ''connectedStatus'' of
        Inl e \<Rightarrow> Inl e
      | Inr status \<Rightarrow>
          (case filter_connected orgs of
             Inl e \<Rightarrow> Inl e
           | Inr kept \<Rightarrow>
               Inr (if strict_equals status (JStr ''Connected'') then org # kept else kept)))"

text \<open>\<^verbatim>\<open>v.filter(...)\<close>: only an array has the method.\<close>

fun call_filter :: "jsval \<Rightarrow> js_error + jsval list" where
  "call_filter (JArr orgs) = filter_connected orgs"
| "call_filter JUndefined = Inl (TypeError_nullish ''filter'')"
| "call_filter JNull = Inl (TypeError_nullish ''filter'')"
| "call_filter v = Inl (TypeError_not_a_function ''filter'')"

text \<open>The body of the \<^verbatim>\<open>try\<close> after \<^verbatim>\<open>JSON.parse\<close>:
  \<^verbatim>\<open>const { nonScratchOrgs = [] } = parsed.result\<close>, where the default stands in for
  \<^verbatim>\<open>undefined\<close> only, then the filter.\<close>

definition connected_of :: "jsval \<Rightarrow> js_error + jsval list" where
  "connected_of parsed =
     try_bind (get_prop parsed ''result'') (\<lambda>result.
     try_bind (get_prop result ''nonScratchOrgs'') (\<lambda>nonScratchOrgs.
       call_filter (if nonScratchOrgs = JUndefined then JArr [] else nonScratchOrgs)))"

definition org_list_command :: string where
  "org_list_command = ''sfdx force:org:list --json''"

definition getAuthenticatedOrgs :: "'w env \<Rightarrow> 'w state \<Rightarrow> (jsval list, 'w) outcome_of_call" where
  "getAuthenticatedOrgs env st =
     (case call_exec env org_list_command st of
        (parsed, st') \<Rightarrow>
          (case try_bind parsed connected_of of
             Inl error \<Rightarrow> Exited 1 (emit (Console_error (Error_retrieving_orgs error)) st')
           | Inr orgs \<Rightarrow> Returned orgs st'))"

definition org_display_command :: "jsval \<Rightarrow> string" where
  "org_display_command orgAlias = ''sfdx force:org:display -u '' @ ToString orgAlias @ '' --json''"

text \<open>\<^verbatim>\<open>const { accessToken, instanceUrl } = parsed.result\<close>\<close>

definition instance_of :: "jsval \<Rightarrow> js_error + jsval \<times> jsval" where
  "instance_of parsed =
     try_bind (get_prop parsed ''result'') (\<lambda>result.
     try_bind (get_prop result ''accessToken'') (\<lambda>accessToken.
       Inr (accessToken, own_prop result ''instanceUrl'')))"

definition getSfInstance ::
  "'w env \<Rightarrow> jsval \<Rightarrow> 'w state \<Rightarrow> (jsval \<times> jsval, 'w) outcome_of_call" where
  "getSfInstance env orgAlias st =
     (case call_exec env (org_display_command orgAlias) st of
        (parsed, st') \<Rightarrow>
          (case try_bind parsed instance_of of
             Inl error \<Rightarrow>
               Exited 1 (emit (Console_error (Error_retrieving_org_details error)) st')
           | Inr instance \<Rightarrow> Returned instance st'))"

subsection \<open>\<^verbatim>\<open>activateLatestFlow\<close>\<close>

definition request_headers :: "jsval \<Rightarrow> headers" where
  "request_headers accessToken =
     [(''Authorization'', ''Bearer '' @ ToString accessToken),
      (''Content-Type'', ''application/json'')]"

definition query_url :: "jsval \<Rightarrow> string" where
  "query_url instanceUrl = ToString instanceUrl @ ''/services/data/v59.0/tooling/query''"

definition definition_url :: "jsval \<Rightarrow> jsval \<Rightarrow> string" where
  "definition_url instanceUrl flowDefinitionId =
     ToString instanceUrl @ ''/services/data/v59.0/tooling/sobjects/FlowDefinition/''
       @ ToString flowDefinitionId"

definition toolingQuery :: "string \<Rightarrow> string" where
  "toolingQuery flowApiName =
     ''SELECT Id, VersionNumber FROM Flow WHERE Definition.DeveloperName = '' @ [quote]
       @ flowApiName @ [quote] @ '' ORDER BY VersionNumber DESC LIMIT 1''"

definition definitionQuery :: "string \<Rightarrow> string" where
  "definitionQuery flowApiName =
     ''SELECT Id FROM FlowDefinition WHERE DeveloperName = '' @ [quote]
       @ flowApiName @ [quote]"

definition verificationQuery :: "jsval \<Rightarrow> string" where
  "verificationQuery flowDefinitionId =
     ''SELECT ActiveVersionId FROM FlowDefinition WHERE Id = '' @ [quote]
       @ ToString flowDefinitionId @ [quote]"

definition metadata :: "jsval \<Rightarrow> jsval" where
  "metadata latestVersionNumber =
     JObj [(''Metadata'', JObj [(''activeVersionNumber'', latestVersionNumber)])]"

text \<open>\<^verbatim>\<open>data.records || []\<close>, and \<^verbatim>\<open>const [first] = data.records || []\<close>\<close>

definition records_of :: "jsval \<Rightarrow> js_error + jsval" where
  "records_of data = try_bind (get_prop data ''records'') (\<lambda>records. Inr (or_empty records))"

definition first_record :: "jsval \<Rightarrow> js_error + jsval" where
  "first_record data = try_bind (records_of data) first_elem"

text \<open>The body of the \<^verbatim>\<open>try\<close>, statement by statement.\<close>

definition activate_try ::
  "'w env \<Rightarrow> string \<Rightarrow> headers \<Rightarrow> jsval \<Rightarrow> 'w state \<Rightarrow> (js_error + unit) \<times> 'w state" where
  "activate_try env flowApiName hs instanceUrl =
     and_then (call_get env (query_url instanceUrl) hs (toolingQuery flowApiName)) (\<lambda>data.
     and_then (pure_step (first_record data)) (\<lambda>latestFlow.
       if \<not> truthy latestFlow then log_step (Flow_not_found flowApiName)
       else
         let latestVersionId = own_prop latestFlow ''Id'';
             latestVersionNumber = own_prop latestFlow ''VersionNumber''
         in
     and_then (call_get env (query_url instanceUrl) hs (definitionQuery flowApiName)) (\<lambda>data.
     and_then (pure_step (first_record data)) (\<lambda>flowDefinition.
       if \<not> truthy flowDefinition then log_step (FlowDefinition_not_found flowApiName)
       else
         let flowDefinitionId = own_prop flowDefinition ''Id'' in
     and_then (call_patch env (definition_url instanceUrl flowDefinitionId)
                 (metadata latestVersionNumber) hs) (\<lambda>patched.
     and_then (call_get env (query_url instanceUrl) hs (verificationQuery flowDefinitionId))
       (\<lambda>data.
     and_then (pure_step (first_record data)) (\<lambda>verificationResult.
       if strict_equals (opt_prop verificationResult ''ActiveVersionId'') latestVersionId
       then log_step (Successfully_activated flowApiName latestVersionNumber)
       else log_step (Failed_to_verify flowApiName latestVersionNumber))))))))"

definition activateLatestFlow ::
  "'w env \<Rightarrow> string \<Rightarrow> jsval \<Rightarrow> jsval \<Rightarrow> 'w state \<Rightarrow> 'w state" where
  "activateLatestFlow env flowApiName accessToken instanceUrl st =
     (case activate_try env flowApiName (request_headers accessToken) instanceUrl st of
        (Inl error, st') \<Rightarrow> emit (Console_error (Error_activating_flow error)) st'
      | (Inr u, st') \<Rightarrow> st')"

subsection \<open>The flow question\<close>

text \<open>\<^verbatim>\<open>input.split(';')\<close>\<close>

fun split_semicolons :: "string \<Rightarrow> string list" where
  "split_semicolons [] = [[]]"
| "split_semicolons (c # cs) =
     (if c = CHR '';'' then [] # split_semicolons cs
      else (case split_semicolons cs of
              [] \<Rightarrow> [[c]]
            | piece # pieces \<Rightarrow> (c # piece) # pieces))"

text \<open>The characters \<^verbatim>\<open>String.prototype.trim\<close> removes, among the 8-bit ones: tab, line
  feed, vertical tab, form feed, carriage return, space, no-break space.\<close>

definition is_whitespace :: "char \<Rightarrow> bool" where
  "is_whitespace c =
     (c = CHR 0x09 \<or> c = CHR 0x0A \<or> c = CHR 0x0B \<or> c = CHR 0x0C \<or> c = CHR 0x0D
      \<or> c = CHR 0x20 \<or> c = CHR 0xA0)"

definition trim :: "string \<Rightarrow> string" where
  "trim s = rev (dropWhile is_whitespace (rev (dropWhile is_whitespace s)))"

text \<open>\<^verbatim>\<open>validate: value => value ? true : 'Please enter at least one flow name'\<close>\<close>

definition validate_flowNames :: "string \<Rightarrow> bool" where
  "validate_flowNames v = (v \<noteq> [])"

text \<open>\<^verbatim>\<open>format: input => input.split(';').map(name => name.trim())\<close>\<close>

definition format_flowNames :: "string \<Rightarrow> string list" where
  "format_flowNames input = map trim (split_semicolons input)"

text \<open>\<^verbatim>\<open>prompts(flowQuestion)\<close>: a text the validation refuses leaves the question open
  for the next entry; the accepted one is formatted; an operator who gives up leaves
  \<^verbatim>\<open>flowNames\<close> undefined.\<close>

fun prompt_flowNames :: "string list \<Rightarrow> string list option" where
  "prompt_flowNames [] = None"
| "prompt_flowNames (v # later) =
     (if validate_flowNames v then Some (format_flowNames v) else prompt_flowNames later)"

subsection \<open>\<^verbatim>\<open>main\<close>\<close>

text \<open>The inner \<^verbatim>\<open>for\<close> loop, over the flow names.\<close>

fun flows_loop :: "'w env \<Rightarrow> string list \<Rightarrow> jsval \<Rightarrow> jsval \<Rightarrow> 'w state \<Rightarrow> 'w state" where
  "flows_loop env [] accessToken instanceUrl st = st"
| "flows_loop env (flowApiName # later) accessToken instanceUrl st =
     flows_loop env later accessToken instanceUrl
       (activateLatestFlow env flowApiName accessToken instanceUrl st)"

text \<open>The outer \<^verbatim>\<open>for\<close> loop, over the selected orgs.\<close>

fun orgs_loop :: "'w env \<Rightarrow> jsval list \<Rightarrow> string list \<Rightarrow> 'w state \<Rightarrow> (unit, 'w) outcome_of_call" where
  "orgs_loop env [] flowNames st = Returned () st"
| "orgs_loop env (orgAlias # later) flowNames st =
     (case getSfInstance env orgAlias (emit (Console_log (Activating_flows_in_org orgAlias)) st) of
        Exited code st' \<Rightarrow> Exited code st'
      | Returned (accessToken, instanceUrl) st' \<Rightarrow>
          orgs_loop env later flowNames (flows_loop env flowNames accessToken instanceUrl st'))"

definition orgChoices :: "jsval list \<Rightarrow> (jsval \<times> jsval) list" where
  "orgChoices orgs = map (\<lambda>org. (own_prop org ''alias'', own_prop org ''alias'')) orgs"

definition main :: "'w env \<Rightarrow> 'w state \<Rightarrow> (unit, 'w) outcome_of_call" where
  "main env st0 =
     (let st1 = emit (Console_log Source_link) (displayAsciiArt env ''Flow Activator'' st0);
          st2 = emit (Prompts Flow_question) st1
      in case prompt_flowNames (flow_entries env) of
           None \<Rightarrow> Returned () (emit (Console_log Operation_cancelled) st2)
         | Some flowNames \<Rightarrow>
             (case getAuthenticatedOrgs env st2 of
                Exited code st3 \<Rightarrow> Exited code st3
              | Returned orgs st3 \<Rightarrow>
                  (let st4 = emit (Prompts (Org_questions (orgChoices orgs))) st3
                   in case org_answers env (orgChoices orgs) of
                        Confirmed selectedOrgs \<Rightarrow> orgs_loop env selectedOrgs flowNames st4
                      | Declined \<Rightarrow> Returned () (emit (Console_log Operation_cancelled) st4)
                      | Cancelled \<Rightarrow> Returned () (emit (Console_log Operation_cancelled) st4))))"

text \<open>The exit code of the process: that of \<^verbatim>\<open>process.exit\<close>, and 0 when \<^verbatim>\<open>main\<close>
  returns.\<close>

fun exit_code :: "('a, 'w) outcome_of_call \<Rightarrow> int" where
  "exit_code (Exited code st) = code"
| "exit_code (Returned v st) = 0"

fun final_state :: "('a, 'w) outcome_of_call \<Rightarrow> 'w state" where
  "final_state (Exited code st) = st"
| "final_state (Returned v st) = st"


section \<open>Reading a trace\<close>

text \<open>The events a computation has added to the trace of the state it started from.\<close>

definition issued_since :: "'w state \<Rightarrow> 'w state \<Rightarrow> event list" where
  "issued_since st st' = drop (length (trace st)) (trace st')"

fun is_patch :: "event \<Rightarrow> bool" where
  "is_patch (Axios_patch url body hs) = True"
| "is_patch e = False"

text \<open>
  The outcome of an activation in the words of the specification, read off the status
  line the activation prints: \<^verbatim>\<open>activateLatestFlow\<close> itself returns nothing.
\<close>

datatype outcome =
    Activated jsval
  | FlowNotFound
  | DefinitionNotFound
  | VerificationFailed jsval
  | RemoteError js_error

fun outcome_of :: "event \<Rightarrow> outcome option" where
  "outcome_of (Console_log (Flow_not_found flowApiName)) = Some FlowNotFound"
| "outcome_of (Console_log (FlowDefinition_not_found flowApiName)) = Some DefinitionNotFound"
| "outcome_of (Console_log (Successfully_activated flowApiName n)) = Some (Activated n)"
| "outcome_of (Console_log (Failed_to_verify flowApiName n)) = Some (VerificationFailed n)"
| "outcome_of (Console_error (Error_activating_flow error)) = Some (RemoteError error)"
| "outcome_of e = None"

definition outcomes :: "event list \<Rightarrow> outcome list" where
  "outcomes events = List.map_filter outcome_of events"

text \<open>
  The skeleton of a trace: the questions asked, the commands run, the step-1 lookups (the
  only requests whose query selects \<^verbatim>\<open>Id, VersionNumber\<close>) and the status lines, in the
  order they happened.
\<close>

datatype mark =
    Asked question
  | Command string
  | Lookup string
  | Status

fun mark_of :: "event \<Rightarrow> mark option" where
  "mark_of (Prompts q) = Some (Asked q)"
| "mark_of (Exec_sync cmd) = Some (Command cmd)"
| "mark_of (Axios_get url hs q) =
     (if prefix ''SELECT Id, VersionNumber'' q then Some (Lookup q) else None)"
| "mark_of e = (case outcome_of e of None \<Rightarrow> None | Some out \<Rightarrow> Some Status)"

text \<open>The skeleton of one activation, and of the whole loop over orgs and flow names.\<close>

definition attempt_marks :: "string \<Rightarrow> mark list" where
  "attempt_marks flowApiName = [Lookup (toolingQuery flowApiName), Status]"


definition marks :: "event list \<Rightarrow> mark list" where
  "marks events = List.map_filter mark_of events"

text \<open>The questions among the marks of a skeleton.\<close>

fun asked_of :: "mark \<Rightarrow> question option" where
  "asked_of (Asked q) = Some q"
| "asked_of m = None"

definition questions_asked :: "mark list \<Rightarrow> question list" where
  "questions_asked ms = List.map_filter asked_of ms"

text \<open>
  What makes a query step throw, given the result of its request: the request is rejected,
  or the body of the response cannot be read (it is \<^verbatim>\<open>null\<close>, or its \<^verbatim>\<open>records\<close> are a
  value that is not iterable).
\<close>

fun step_failure :: "string + jsval \<Rightarrow> js_error option" where
  "step_failure (Inl m) = Some (Failure m)"
| "step_failure (Inr data) = (case first_record data of Inl e \<Rightarrow> Some e | Inr record \<Rightarrow> None)"

text \<open>The query strings of the requests sent to the query endpoint, in order.\<close>

fun query_of :: "event \<Rightarrow> string option" where
  "query_of (Axios_get url hs q) = Some q"
| "query_of e = None"

definition queries :: "event list \<Rightarrow> string list" where
  "queries events = List.map_filter query_of events"

text \<open>The text between the first single quote of a query and the next single quote.\<close>

definition quoted_literal :: "string \<Rightarrow> string" where
  "quoted_literal q = takeWhile (\<lambda>c. c \<noteq> quote) (tl (dropWhile (\<lambda>c. c \<noteq> quote) q))"


text \<open>A JSON string, number, boolean or \<^verbatim>\<open>null\<close>.\<close>

fun primitive :: "jsval \<Rightarrow> bool" where
  "primitive JNull = True"
| "primitive (JBool b) = True"
| "primitive (JNum n) = True"
| "primitive (JStr s) = True"
| "primitive v = False"

text \<open>\<^verbatim>\<open>names.join(';')\<close>: the text an operator types for a sequence of names.\<close>

fun join_semicolons :: "string list \<Rightarrow> string" where
  "join_semicolons [] = []"
| "join_semicolons [s] = s"
| "join_semicolons (s # t # ss) = s @ '';'' @ join_semicolons (t # ss)"

section \<open>A test double\<close>

text \<open>The double of the outside world used to run the program on concrete inputs: a
  command yields what a table says, whatever the state; the state is a list of canned
  results for axios, and every request takes the next one.\<close>

definition next_canned :: "(string + jsval) list \<Rightarrow> (string + jsval) \<times> (string + jsval) list" where
  "next_canned w = (case w of [] \<Rightarrow> (Inl ''no canned result'', []) | r # rs \<Rightarrow> (r, rs))"

definition double ::
  "(string \<Rightarrow> string + jsval) \<Rightarrow> string list \<Rightarrow> ((jsval \<times> jsval) list \<Rightarrow> org_answer) \<Rightarrow>
   ((string + jsval) list) env" where
  "double commands entries answer =
     \<lparr>figlet_textSync = (\<lambda>text. Inr text),
      execSync_parse = (\<lambda>cmd w. (commands cmd, w)),
      axios_get = (\<lambda>url hs q. next_canned),
      axios_patch = (\<lambda>url body hs. next_canned),
      flow_entries = entries,
      org_answers = answer\<rparr>"

text \<open>Canned documents: a query result with one flow version, with one flow definition,
  with the active version of a definition, and with no record; the output of the display
  command for an org.\<close>

definition version_found :: "string \<Rightarrow> int \<Rightarrow> string + jsval" where
  "version_found versionId n =
     Inr (JObj [(''records'', JArr [JObj [(''Id'', JStr versionId), (''VersionNumber'', JNum n)]])])"

definition definition_found :: "string \<Rightarrow> string + jsval" where
  "definition_found definitionId = Inr (JObj [(''records'', JArr [JObj [(''Id'', JStr definitionId)]])])"

definition active_version :: "string \<Rightarrow> string + jsval" where
  "active_version versionId =
     Inr (JObj [(''records'', JArr [JObj [(''ActiveVersionId'', JStr versionId)]])])"

definition no_records :: "string + jsval" where
  "no_records = Inr (JObj [(''records'', JArr [])])"

definition acknowledged :: "string + jsval" where
  "acknowledged = Inr (JStr [])"

definition displayed :: "string \<Rightarrow> string \<Rightarrow> string + jsval" where
  "displayed token url =
     Inr (JObj [(''result'', JObj [(''accessToken'', JStr token), (''instanceUrl'', JStr url)])])"

text \<open>The commands of a workstation with three authenticated orgs, one of them
  disconnected; the display command fails for any other alias.\<close>

definition listed_org :: "string \<Rightarrow> string \<Rightarrow> jsval" where
  "listed_org alias status = JObj [(''alias'', JStr alias), (''connectedStatus'', JStr status)]"

definition sfdx :: "string \<Rightarrow> string + jsval" where
  "sfdx cmd =
     (if cmd = org_list_command then
        Inr (JObj [(''result'', JObj [(''nonScratchOrgs'',
               JArr [listed_org ''Org1'' ''Connected'',
                     listed_org ''Old'' ''RefreshTokenAuthError'',
                     listed_org ''Org2'' ''Connected''])])])
      else if cmd = org_display_command (JStr ''Org1'') then displayed ''t0k1'' ''https://org1''
      else if cmd = org_display_command (JStr ''Org2'') then displayed ''t0k2'' ''https://org2''
      else Inl ''Command failed'')"

text \<open>A double with no command and no operator, for running one activation.\<close>

definition remote_only :: "((string + jsval) list) env" where
  "remote_only = double (\<lambda>cmd. Inl ''no such command'') [] (\<lambda>choices. Cancelled)"

definition starting :: "(string + jsval) list \<Rightarrow> ((string + jsval) list) state" where
  "starting canned = \<lparr>world = canned, trace = []\<rparr>"

section \<open>Reading traces and values: basic facts\<close>

lemmas step_defs = activateLatestFlow_def activate_try_def and_then_def pure_step_def log_step_def
  call_get_def call_patch_def thrown_def emit_def Let_def

lemmas read_defs = first_record_def records_of_def try_bind_def get_prop_def or_empty_def
  opt_prop_def

lemmas double_defs = remote_only_def double_def next_canned_def starting_def version_found_def
  definition_found_def active_version_def no_records_def acknowledged_def displayed_def

lemmas sfdx_defs = sfdx_def org_list_command_def org_display_command_def listed_org_def

lemma issued_since_append [simp]:
  "issued_since st \<lparr>world = w, trace = trace st @ es\<rparr> = es"
  by (simp add: issued_since_def)


lemma strict_equals_primitive: "primitive b \<Longrightarrow> strict_equals a b = (a = b)"
  by (cases a; cases b) auto

lemma marks_append [simp]: "marks (xs @ ys) = marks xs @ marks ys"
  by (simp add: marks_def List.map_filter_def)

lemma marks_Nil [simp]: "marks [] = []"
  by (simp add: marks_def List.map_filter_simps)

lemma marks_Cons:
  "marks (e # es) = (case mark_of e of None \<Rightarrow> marks es | Some m \<Rightarrow> m # marks es)"
  by (cases "mark_of e") (simp_all add: marks_def List.map_filter_simps)

lemma queries_Nil [simp]: "queries [] = []"
  by (simp add: queries_def List.map_filter_simps)

lemma queries_Cons:
  "queries (e # es) = (case query_of e of None \<Rightarrow> queries es | Some q \<Rightarrow> q # queries es)"
  by (cases "query_of e") (simp_all add: queries_def List.map_filter_simps)

lemma questions_asked_append [simp]:
  "questions_asked (xs @ ys) = questions_asked xs @ questions_asked ys"
  by (simp add: questions_asked_def List.map_filter_def)

lemma lookup_prefix [simp]: "prefix ''SELECT Id, VersionNumber'' (toolingQuery f)"
  by (simp add: toolingQuery_def)

lemma definition_no_prefix [simp]: "\<not> prefix ''SELECT Id, VersionNumber'' (definitionQuery f)"
  by (simp add: definitionQuery_def)

lemma verification_no_prefix [simp]:
  "\<not> prefix ''SELECT Id, VersionNumber'' (verificationQuery d)"
  by (simp add: verificationQuery_def)




lemma questions_asked_attempts [simp]:
  "questions_asked (concat (map attempt_marks flowNames)) = []"
  by (induction flowNames)
    (simp_all add: attempt_marks_def questions_asked_def List.map_filter_simps)

subsection \<open>The double at work\<close>

lemma canned_lookup:
  "axios_get remote_only url hs q (world (starting (version_found versionId n # rest)))
   = (Inr (JObj [(''records'',
                  JArr [JObj [(''Id'', JStr versionId), (''VersionNumber'', JNum n)]])]), rest)"
  by (simp add: double_defs)

lemma canned_version:
  "first_record (JObj [(''records'',
                        JArr [JObj [(''Id'', JStr versionId), (''VersionNumber'', JNum n)]])])
   = Inr (JObj [(''Id'', JStr versionId), (''VersionNumber'', JNum n)])"
  by (simp add: read_defs)

lemma canned_definition_lookup:
  "axios_get remote_only url hs q (definition_found definitionId # rest)
   = (Inr (JObj [(''records'', JArr [JObj [(''Id'', JStr definitionId)]])]), rest)"
  by (simp add: double_defs)

lemma canned_definition:
  "first_record (JObj [(''records'', JArr [JObj [(''Id'', JStr definitionId)]])])
   = Inr (JObj [(''Id'', JStr definitionId)])"
  by (simp add: read_defs)

lemma canned_acknowledged:
  "axios_patch remote_only url body hs (acknowledged # rest) = (Inr (JStr []), rest)"
  by (simp add: double_defs)




section \<open>One activation\<close>

lemma activate_not_found:
  assumes "axios_get env (query_url url) (request_headers tok) (toolingQuery f) (world st)
             = (Inr data, w)"
    and "records_of data = Inr (JArr [])"
  shows "activateLatestFlow env f tok url st =
     \<lparr>world = w, trace = trace st @
        [Axios_get (query_url url) (request_headers tok) (toolingQuery f),
         Console_log (Flow_not_found f)]\<rparr>"
  using assms by (simp add: step_defs first_record_def try_bind_def)

lemma activate_definition_not_found:
  assumes "axios_get env (query_url url) (request_headers tok) (toolingQuery f) (world st)
             = (Inr d1, w1)"
    and "first_record d1 = Inr latestFlow" and "truthy latestFlow"
    and "axios_get env (query_url url) (request_headers tok) (definitionQuery f) w1
             = (Inr d2, w2)"
    and "records_of d2 = Inr (JArr [])"
  shows "activateLatestFlow env f tok url st =
     \<lparr>world = w2, trace = trace st @
        [Axios_get (query_url url) (request_headers tok) (toolingQuery f),
         Axios_get (query_url url) (request_headers tok) (definitionQuery f),
         Console_log (FlowDefinition_not_found f)]\<rparr>"
  using assms by (simp add: step_defs first_record_def try_bind_def)


text \<open>Whatever the outside world answers, an activation adds to the trace one lookup and
  one status line, in that order, and no other mark.\<close>

lemma activate_marks:
  "\<exists>es. trace (activateLatestFlow env f tok url st) = trace st @ es \<and> marks es = attempt_marks f"
  by (simp add: step_defs attempt_marks_def marks_Cons split: prod.splits sum.splits)



text \<open>
  C2. When the step-1 query for the flow version answers with no record (a \<^verbatim>\<open>records\<close>
  list that is empty or absent), the activation issues that one request, prints the
  not-found line and stops: its outcome is \<open>FlowNotFound\<close> and it sends no patch request.
\<close>

theorem flow_not_found_stops:
  assumes "axios_get env (query_url instanceUrl) (request_headers accessToken)
             (toolingQuery flowApiName) (world st) = (Inr data, w)"
    and "records_of data = Inr (JArr [])"
  shows "issued_since st (activateLatestFlow env flowApiName accessToken instanceUrl st) =
           [Axios_get (query_url instanceUrl) (request_headers accessToken)
              (toolingQuery flowApiName),
            Console_log (Flow_not_found flowApiName)]
       \<and> outcomes (issued_since st (activateLatestFlow env flowApiName accessToken instanceUrl st))
           = [FlowNotFound]
       \<and> filter is_patch
            (issued_since st (activateLatestFlow env flowApiName accessToken instanceUrl st)) = []"
  by (simp add: activate_not_found [OF assms] outcomes_def List.map_filter_simps)

theorem flow_not_found_stops_witness:
  "records_of (JObj [(''records'', JArr [])]) = Inr (JArr [])
   \<and> issued_since (starting [no_records])
       (activateLatestFlow remote_only ''FlowB'' (JStr ''t0k'') (JStr ''https://org1'')
          (starting [no_records]))
     = [Axios_get (query_url (JStr ''https://org1'')) (request_headers (JStr ''t0k''))
          (toolingQuery ''FlowB''),
        Console_log (Flow_not_found ''FlowB'')]"
proof -
  have none: "records_of (JObj [(''records'', JArr [])]) = Inr (JArr [])"
    by (simp add: read_defs)
  have lookup: "axios_get remote_only (query_url (JStr ''https://org1''))
      (request_headers (JStr ''t0k'')) (toolingQuery ''FlowB'') (world (starting [no_records]))
      = (Inr (JObj [(''records'', JArr [])]), [])"
    by (simp add: double_defs)
  from flow_not_found_stops [OF lookup none] none show ?thesis by simp
qed

text \<open>
  C3. When the step-1 lookup yields a version record and the step-2 query for the flow
  definition answers with no record, the activation issues those two requests, prints
  the definition-not-found line and stops: its outcome is \<open>DefinitionNotFound\<close> and it
  sends no patch request.
\<close>

theorem definition_not_found_stops:
  assumes "axios_get env (query_url instanceUrl) (request_headers accessToken)
             (toolingQuery flowApiName) (world st) = (Inr data1, w1)"
    and "first_record data1 = Inr latestFlow" and "truthy latestFlow"
    and "axios_get env (query_url instanceUrl) (request_headers accessToken)
             (definitionQuery flowApiName) w1 = (Inr data2, w2)"
    and "records_of data2 = Inr (JArr [])"
  shows "issued_since st (activateLatestFlow env flowApiName accessToken instanceUrl st) =
           [Axios_get (query_url instanceUrl) (request_headers accessToken)
              (toolingQuery flowApiName),
            Axios_get (query_url instanceUrl) (request_headers accessToken)
              (definitionQuery flowApiName),
            Console_log (FlowDefinition_not_found flowApiName)]
       \<and> outcomes (issued_since st (activateLatestFlow env flowApiName accessToken instanceUrl st))
           = [DefinitionNotFound]
       \<and> filter is_patch
            (issued_since st (activateLatestFlow env flowApiName accessToken instanceUrl st)) = []"
  by (simp add: activate_definition_not_found [OF assms] outcomes_def List.map_filter_simps)

theorem definition_not_found_stops_witness:
  "issued_since (starting [version_found ''301v3'' 3, no_records])
     (activateLatestFlow remote_only ''FlowA'' (JStr ''t0k'') (JStr ''https://org1'')
        (starting [version_found ''301v3'' 3, no_records]))
   = [Axios_get (query_url (JStr ''https://org1'')) (request_headers (JStr ''t0k''))
        (toolingQuery ''FlowA''),
      Axios_get (query_url (JStr ''https://org1'')) (request_headers (JStr ''t0k''))
        (definitionQuery ''FlowA''),
      Console_log (FlowDefinition_not_found ''FlowA'')]"
proof -
  have def_lookup: "axios_get remote_only (query_url (JStr ''https://org1''))
      (request_headers (JStr ''t0k'')) (definitionQuery ''FlowA'') [no_records]
    = (Inr (JObj [(''records'', JArr [])]), [])"
    by (simp add: double_defs)
  have none: "records_of (JObj [(''records'', JArr [])]) = Inr (JArr [])"
    by (simp add: read_defs)
  from definition_not_found_stops
    [OF canned_lookup [where versionId = "''301v3''" and n = 3 and rest = "[no_records]"]
        canned_version _ def_lookup none]
  show ?thesis by simp
qed



subsection \<open>The flow name inside the queries\<close>

lemma quoted_literal_template:
  assumes "quote \<notin> set pre"
  shows "quoted_literal (pre @ [quote] @ name @ [quote] @ post)
         = takeWhile (\<lambda>c. c \<noteq> quote) name"
proof -
  from assms have "dropWhile (\<lambda>c. c \<noteq> quote) (pre @ [quote] @ name @ [quote] @ post)
      = [quote] @ name @ [quote] @ post"
    by (auto simp add: dropWhile_append3)
  moreover have "takeWhile (\<lambda>c. c \<noteq> quote) (name @ [quote] @ post)
      = takeWhile (\<lambda>c. c \<noteq> quote) name"
    by (induction name) simp_all
  ultimately show ?thesis by (simp add: quoted_literal_def)
qed

lemma quoted_literal_toolingQuery:
  "quoted_literal (toolingQuery f) = takeWhile (\<lambda>c. c \<noteq> quote) f"
  unfolding toolingQuery_def by (rule quoted_literal_template) simp

lemma quoted_literal_definitionQuery:
  "quoted_literal (definitionQuery f) = takeWhile (\<lambda>c. c \<noteq> quote) f"
  using quoted_literal_template
    [of "''SELECT Id FROM FlowDefinition WHERE DeveloperName = ''" f "[]"]
  by (simp add: definitionQuery_def)

lemma takeWhile_all: "(takeWhile (\<lambda>c. c \<noteq> quote) f = f) = (quote \<notin> set f)"
  by (auto simp add: takeWhile_eq_all_conv)

text \<open>
  C10, as amended. An activation that gets past the patch request sends three queries.
  The first two embed the flow name exactly as the operator typed it, unescaped, between
  single quotes; the third does not contain the flow name: it embeds, the same way, the
  id of the definition record that step 2 received. Hence the text between the opening
  quote of the first two queries and the next quote is the flow name only when the name
  has no single quote; otherwise it is the part of the name before its first quote, and
  the rest of the name is read as query text.
\<close>

theorem flow_name_embedded_verbatim:
  assumes "axios_get env (query_url instanceUrl) (request_headers accessToken)
             (toolingQuery flowApiName) (world st) = (Inr data1, w1)"
    and "first_record data1 = Inr latestFlow" and "truthy latestFlow"
    and "axios_get env (query_url instanceUrl) (request_headers accessToken)
             (definitionQuery flowApiName) w1 = (Inr data2, w2)"
    and "first_record data2 = Inr flowDefinition" and "truthy flowDefinition"
    and "axios_patch env (definition_url instanceUrl (own_prop flowDefinition ''Id''))
           (metadata (own_prop latestFlow ''VersionNumber'')) (request_headers accessToken) w2
           = (Inr ack, w3)"
  shows "queries (issued_since st (activateLatestFlow env flowApiName accessToken instanceUrl st))
           = [''SELECT Id, VersionNumber FROM Flow WHERE Definition.DeveloperName = '' @ [quote]
                @ flowApiName @ [quote] @ '' ORDER BY VersionNumber DESC LIMIT 1'',
              ''SELECT Id FROM FlowDefinition WHERE DeveloperName = '' @ [quote]
                @ flowApiName @ [quote],
              ''SELECT ActiveVersionId FROM FlowDefinition WHERE Id = '' @ [quote]
                @ ToString (own_prop flowDefinition ''Id'') @ [quote]]
       \<and> quoted_literal (toolingQuery flowApiName) = takeWhile (\<lambda>c. c \<noteq> quote) flowApiName
       \<and> quoted_literal (definitionQuery flowApiName) = takeWhile (\<lambda>c. c \<noteq> quote) flowApiName
       \<and> (quoted_literal (toolingQuery flowApiName) = flowApiName) = (quote \<notin> set flowApiName)
       \<and> (quoted_literal (definitionQuery flowApiName) = flowApiName)
           = (quote \<notin> set flowApiName)"
proof -
  obtain r4 w4 where verification:
    "axios_get env (query_url instanceUrl) (request_headers accessToken)
      (verificationQuery (own_prop flowDefinition ''Id'')) w3 = (r4, w4)"
    by fastforce
  have "queries (issued_since st (activateLatestFlow env flowApiName accessToken instanceUrl st))
      = [toolingQuery flowApiName, definitionQuery flowApiName,
         verificationQuery (own_prop flowDefinition ''Id'')]"
    using assms verification
    by (cases r4) (simp_all add: step_defs issued_since_def queries_Cons split: sum.splits)
  then show ?thesis
    by (simp only: toolingQuery_def [symmetric] definitionQuery_def [symmetric]
        verificationQuery_def [symmetric] quoted_literal_toolingQuery
        quoted_literal_definitionQuery takeWhile_all simp_thms)
qed

text \<open>A flow name with two single quotes: the queries carry it as typed, and the quoted
  text of the first query ends at the first of them.\<close>

theorem flow_name_embedded_verbatim_witness:
  "queries (issued_since
      (starting [version_found ''301v3'' 3, definition_found ''300d1'', acknowledged,
                 active_version ''301v3''])
      (activateLatestFlow remote_only (''x'' @ [quote] @ '' OR Id != '' @ [quote]) (JStr ''t0k'')
         (JStr ''https://org1'')
         (starting [version_found ''301v3'' 3, definition_found ''300d1'', acknowledged,
                    active_version ''301v3''])))
   = [''SELECT Id, VersionNumber FROM Flow WHERE Definition.DeveloperName = '' @ [quote]
        @ ''x'' @ [quote] @ '' OR Id != '' @ [quote] @ [quote]
        @ '' ORDER BY VersionNumber DESC LIMIT 1'',
      ''SELECT Id FROM FlowDefinition WHERE DeveloperName = '' @ [quote]
        @ ''x'' @ [quote] @ '' OR Id != '' @ [quote] @ [quote],
      ''SELECT ActiveVersionId FROM FlowDefinition WHERE Id = '' @ [quote] @ ''300d1'' @ [quote]]
   \<and> quoted_literal (toolingQuery (''x'' @ [quote] @ '' OR Id != '' @ [quote])) = ''x''"
  using flow_name_embedded_verbatim
    [OF canned_lookup
          [where versionId = "''301v3''" and n = 3
             and rest = "[definition_found ''300d1'', acknowledged, active_version ''301v3'']"]
        canned_version _
        canned_definition_lookup
          [where definitionId = "''300d1''" and rest = "[acknowledged, active_version ''301v3'']"]
        canned_definition _
        canned_acknowledged [where rest = "[active_version ''301v3'']"],
     where flowApiName = "''x'' @ [quote] @ '' OR Id != '' @ [quote]"
       and accessToken = "JStr ''t0k''" and instanceUrl = "JStr ''https://org1''"]
  by (simp add: acknowledged_def)

text \<open>C10 as stated fails: the third query of the canned run of \<^verbatim>\<open>FlowA\<close> is the
  verification query for the definition id, and the flow name occurs nowhere in it.\<close>

theorem verification_query_counterexample:
  "queries (issued_since
      (starting [version_found ''301v3'' 3, definition_found ''300d1'', acknowledged,
                 active_version ''301v3''])
      (activateLatestFlow remote_only ''FlowA'' (JStr ''t0k'') (JStr ''https://org1'')
         (starting [version_found ''301v3'' 3, definition_found ''300d1'', acknowledged,
                    active_version ''301v3''])))
   = [toolingQuery ''FlowA'', definitionQuery ''FlowA'',
      ''SELECT ActiveVersionId FROM FlowDefinition WHERE Id = '' @ [quote] @ ''300d1'' @ [quote]]
   \<and> \<not> sublist ''FlowA''
        (''SELECT ActiveVersionId FROM FlowDefinition WHERE Id = '' @ [quote] @ ''300d1'' @ [quote])"
  by (simp add: step_defs double_defs read_defs issued_since_def queries_Cons
      verificationQuery_def sublist_code)

section \<open>The loops\<close>

lemma flows_loop_marks:
  "\<exists>es. trace (flows_loop env flowNames tok url st) = trace st @ es
        \<and> marks es = concat (map attempt_marks flowNames)"
proof (induction flowNames arbitrary: st)
  case Nil
  show ?case by simp
next
  case (Cons f later)
  obtain es1 where one: "trace (activateLatestFlow env f tok url st) = trace st @ es1"
      "marks es1 = attempt_marks f"
    using activate_marks by blast
  obtain es2 where rest:
      "trace (flows_loop env later tok url (activateLatestFlow env f tok url st))
        = trace (activateLatestFlow env f tok url st) @ es2"
      "marks es2 = concat (map attempt_marks later)"
    using Cons.IH by blast
  have "trace (flows_loop env (f # later) tok url st) = trace st @ (es1 @ es2)"
    using one rest by simp
  moreover have "marks (es1 @ es2) = concat (map attempt_marks (f # later))"
    using one rest by simp
  ultimately show ?case by blast
qed



lemma getSfInstance_failure:
  assumes "execSync_parse env (org_display_command orgAlias) (world st) = (Inl m, w)"
  shows "getSfInstance env orgAlias st =
           Exited 1 \<lparr>world = w, trace = trace st @
             [Exec_sync (org_display_command orgAlias),
              Console_error (Error_retrieving_org_details (Failure m))]\<rparr>"
  using assms
  by (simp add: getSfInstance_def call_exec_def thrown_def try_bind_def emit_def)

lemma getSfInstance_trace:
  "\<exists>es. trace (final_state (getSfInstance env orgAlias st)) = trace st @ es
        \<and> questions_asked (marks es) = []"
proof -
  obtain r w where exec: "execSync_parse env (org_display_command orgAlias) (world st) = (r, w)"
    by fastforce
  show ?thesis
  proof (cases "try_bind (thrown r) instance_of")
    case (Inl e)
    with exec have "trace (final_state (getSfInstance env orgAlias st)) = trace st @
        [Exec_sync (org_display_command orgAlias),
         Console_error (Error_retrieving_org_details e)]"
      by (simp add: getSfInstance_def call_exec_def emit_def)
    moreover have "questions_asked (marks [Exec_sync (org_display_command orgAlias),
        Console_error (Error_retrieving_org_details e)]) = []"
      by (simp add: marks_Cons questions_asked_def List.map_filter_simps)
    ultimately show ?thesis by blast
  next
    case (Inr found)
    with exec have "trace (final_state (getSfInstance env orgAlias st)) = trace st @
        [Exec_sync (org_display_command orgAlias)]"
      by (simp add: getSfInstance_def call_exec_def emit_def)
    moreover have "questions_asked (marks [Exec_sync (org_display_command orgAlias)]) = []"
      by (simp add: marks_Cons questions_asked_def List.map_filter_simps)
    ultimately show ?thesis by blast
  qed
qed



lemma orgs_loop_asks_nothing:
  "\<exists>es. trace (final_state (orgs_loop env orgs flowNames st)) = trace st @ es
        \<and> questions_asked (marks es) = []"
proof (induction orgs arbitrary: st)
  case Nil
  show ?case by (simp add: questions_asked_def List.map_filter_simps)
next
  case (Cons orgAlias later)
  let ?st0 = "emit (Console_log (Activating_flows_in_org orgAlias)) st"
  obtain es1
    where cred: "trace (final_state (getSfInstance env orgAlias ?st0)) = trace ?st0 @ es1"
      "questions_asked (marks es1) = []"
    using getSfInstance_trace by blast
  show ?case
  proof (cases "getSfInstance env orgAlias ?st0")
    case (Exited code st')
    with cred have "trace (final_state (orgs_loop env (orgAlias # later) flowNames st))
        = trace st @ ([Console_log (Activating_flows_in_org orgAlias)] @ es1)"
      by (simp add: emit_def)
    moreover have
      "questions_asked (marks ([Console_log (Activating_flows_in_org orgAlias)] @ es1)) = []"
      using cred(2) by (simp add: marks_Cons)
    ultimately show ?thesis by blast
  next
    case (Returned creds st')
    obtain tok url where creds: "creds = (tok, url)" by (cases creds)
    obtain es2 where flows: "trace (flows_loop env flowNames tok url st') = trace st' @ es2"
        "marks es2 = concat (map attempt_marks flowNames)"
      using flows_loop_marks by blast
    obtain es3 where rest: "trace (final_state (orgs_loop env later flowNames
          (flows_loop env flowNames tok url st')))
          = trace (flows_loop env flowNames tok url st') @ es3"
        "questions_asked (marks es3) = []"
      using Cons.IH by blast
    have "trace (final_state (orgs_loop env (orgAlias # later) flowNames st))
        = trace st @ ([Console_log (Activating_flows_in_org orgAlias)] @ es1 @ es2 @ es3)"
      using Returned creds cred(1) flows(1) rest(1) by (simp add: emit_def)
    moreover have "questions_asked
        (marks ([Console_log (Activating_flows_in_org orgAlias)] @ es1 @ es2 @ es3)) = []"
      using cred(2) flows(2) rest(2) by (simp add: marks_Cons)
    ultimately show ?thesis by blast
  qed
qed

lemma orgs_loop_append:
  "orgs_loop env (before @ later) flowNames st =
     (case orgs_loop env before flowNames st of
        Exited code st' \<Rightarrow> Exited code st'
      | Returned u st' \<Rightarrow> orgs_loop env later flowNames st')"
  by (induction before arbitrary: st) (simp_all split: outcome_of_call.splits prod.splits)

lemma orgs_loop_credential_failure:
  assumes "orgs_loop env before flowNames st = Returned u st1"
    and "execSync_parse env (org_display_command orgAlias) (world st1) = (Inl m, w)"
  shows "orgs_loop env (before @ orgAlias # later) flowNames st =
     Exited 1 \<lparr>world = w, trace = trace st1 @
       [Console_log (Activating_flows_in_org orgAlias),
        Exec_sync (org_display_command orgAlias),
        Console_error (Error_retrieving_org_details (Failure m))]\<rparr>"
proof -
  have "getSfInstance env orgAlias (emit (Console_log (Activating_flows_in_org orgAlias)) st1) =
     Exited 1 \<lparr>world = w, trace = trace st1 @
       [Console_log (Activating_flows_in_org orgAlias),
        Exec_sync (org_display_command orgAlias),
        Console_error (Error_retrieving_org_details (Failure m))]\<rparr>"
    using assms(2)
      getSfInstance_failure
        [of env orgAlias "emit (Console_log (Activating_flows_in_org orgAlias)) st1" m w]
    by (simp add: emit_def)
  then show ?thesis
    using assms(1) by (simp add: orgs_loop_append)
qed

section \<open>Failures of remote calls\<close>

lemma step_failure_thrown:
  "step_failure r = Some e \<Longrightarrow> try_bind (thrown r) first_record = Inl e"
  by (cases r) (simp_all add: thrown_def try_bind_def split: sum.splits)









section \<open>The run over orgs and flow names\<close>



section \<open>The org directory and the fatal failures\<close>

lemma displayAsciiArt_trace:
  "\<exists>l. displayAsciiArt env text st = \<lparr>world = world st, trace = trace st @ [l]\<rparr>
       \<and> mark_of l = None"
proof (cases "figlet_textSync env text")
  case (Inl m)
  then show ?thesis
    by (intro exI [of _ "Console_error (Error_generating_ascii_art (Failure m))"])
      (simp add: displayAsciiArt_def emit_def)
next
  case (Inr asciiArt)
  then show ?thesis
    by (intro exI [of _ "Console_log (Ascii_art asciiArt)"])
      (simp add: displayAsciiArt_def emit_def)
qed

lemma getAuthenticatedOrgs_failure:
  assumes "execSync_parse env org_list_command (world st) = (Inl m, w)"
  shows "getAuthenticatedOrgs env st =
     Exited 1 \<lparr>world = w, trace = trace st @
       [Exec_sync org_list_command, Console_error (Error_retrieving_orgs (Failure m))]\<rparr>"
  using assms
  by (simp add: getAuthenticatedOrgs_def call_exec_def thrown_def try_bind_def emit_def)

lemma filter_connected_records:
  "list_all (\<lambda>org. \<not> nullish org) orgs \<Longrightarrow>
   filter_connected orgs =
     Inr (filter (\<lambda>org. own_prop org ''connectedStatus'' = JStr ''Connected'') orgs)"
  by (induction orgs) (simp_all add: get_prop_def strict_equals_primitive)

lemma getAuthenticatedOrgs_connected:
  assumes "execSync_parse env org_list_command (world st) = (Inr parsed, w)"
    and "own_prop (own_prop parsed ''result'') ''nonScratchOrgs'' = JArr orgs"
    and "list_all (\<lambda>org. \<not> nullish org) orgs"
  shows "getAuthenticatedOrgs env st =
     Returned (filter (\<lambda>org. own_prop org ''connectedStatus'' = JStr ''Connected'') orgs)
       \<lparr>world = w, trace = trace st @ [Exec_sync org_list_command]\<rparr>"
proof -
  have "\<not> nullish parsed" and "\<not> nullish (own_prop parsed ''result'')"
    using assms(2) by (cases parsed; cases "own_prop parsed ''result''"; simp)+
  then have "connected_of parsed =
      Inr (filter (\<lambda>org. own_prop org ''connectedStatus'' = JStr ''Connected'') orgs)"
    using assms(2,3)
    by (simp add: connected_of_def try_bind_def get_prop_def filter_connected_records)
  then show ?thesis
    using assms(1) by (simp add: getAuthenticatedOrgs_def call_exec_def thrown_def try_bind_def)
qed

lemma main_listing_failure:
  assumes "prompt_flowNames (flow_entries env) = Some flowNames"
    and "execSync_parse env org_list_command (world st) = (Inl m, w)"
  shows "exit_code (main env st) = 1"
    and "marks (issued_since st (final_state (main env st)))
          = [Asked Flow_question, Command org_list_command]"
    and "last (issued_since st (final_state (main env st)))
          = Console_error (Error_retrieving_orgs (Failure m))"
proof -
  obtain l
    where art: "displayAsciiArt env ''Flow Activator'' st
               = \<lparr>world = world st, trace = trace st @ [l]\<rparr>"
      and "mark_of l = None"
    using displayAsciiArt_trace by blast
  let ?st2 = "\<lparr>world = world st,
      trace = trace st @ [l, Console_log Source_link, Prompts Flow_question]\<rparr>"
  have "getAuthenticatedOrgs env ?st2 = Exited 1 \<lparr>world = w, trace = trace ?st2 @
       [Exec_sync org_list_command, Console_error (Error_retrieving_orgs (Failure m))]\<rparr>"
    using assms(2) by (intro getAuthenticatedOrgs_failure) simp
  then have "main env st = Exited 1 \<lparr>world = w, trace = trace st @
       [l, Console_log Source_link, Prompts Flow_question,
        Exec_sync org_list_command, Console_error (Error_retrieving_orgs (Failure m))]\<rparr>"
    using assms(1) art by (simp add: main_def emit_def)
  with \<open>mark_of l = None\<close> show "exit_code (main env st) = 1"
    and "marks (issued_since st (final_state (main env st)))
          = [Asked Flow_question, Command org_list_command]"
    and "last (issued_since st (final_state (main env st)))
          = Console_error (Error_retrieving_orgs (Failure m))"
    by (simp_all add: marks_Cons)
qed

lemma main_choices:
  assumes "prompt_flowNames (flow_entries env) = Some flowNames"
    and "execSync_parse env org_list_command (world st) = (Inr parsed, w)"
    and "own_prop (own_prop parsed ''result'') ''nonScratchOrgs'' = JArr orgs"
    and "list_all (\<lambda>org. \<not> nullish org) orgs"
  shows "questions_asked (marks (issued_since st (final_state (main env st)))) =
     [Flow_question,
      Org_questions (orgChoices
        (filter (\<lambda>org. own_prop org ''connectedStatus'' = JStr ''Connected'') orgs))]"
proof -
  let ?kept = "filter (\<lambda>org. own_prop org ''connectedStatus'' = JStr ''Connected'') orgs"
  obtain l
    where art: "displayAsciiArt env ''Flow Activator'' st
               = \<lparr>world = world st, trace = trace st @ [l]\<rparr>"
      and l: "mark_of l = None"
    using displayAsciiArt_trace by blast
  let ?st2 = "\<lparr>world = world st,
      trace = trace st @ [l, Console_log Source_link, Prompts Flow_question]\<rparr>"
  let ?st4 = "\<lparr>world = w, trace = trace st @ [l, Console_log Source_link, Prompts Flow_question,
      Exec_sync org_list_command, Prompts (Org_questions (orgChoices ?kept))]\<rparr>"
  have listed: "getAuthenticatedOrgs env ?st2 = Returned ?kept
      \<lparr>world = w, trace = trace ?st2 @ [Exec_sync org_list_command]\<rparr>"
    using assms(2-4) by (intro getAuthenticatedOrgs_connected) simp_all
  have head: "questions_asked (marks [l, Console_log Source_link, Prompts Flow_question,
      Exec_sync org_list_command, Prompts (Org_questions (orgChoices ?kept))])
      = [Flow_question, Org_questions (orgChoices ?kept)]"
    using l by (simp add: marks_Cons questions_asked_def List.map_filter_simps)
  have cancelled: "questions_asked (marks [Console_log Operation_cancelled]) = []"
    by (simp add: marks_Cons questions_asked_def List.map_filter_simps)
  show ?thesis
  proof (cases "org_answers env (orgChoices ?kept)")
    case (Confirmed selectedOrgs)
    obtain es
      where loop: "trace (final_state (orgs_loop env selectedOrgs flowNames ?st4))
                   = trace ?st4 @ es"
        "questions_asked (marks es) = []"
      using orgs_loop_asks_nothing by blast
    have "main env st = orgs_loop env selectedOrgs flowNames ?st4"
      using assms(1) art listed Confirmed by (simp add: main_def emit_def)
    then have "issued_since st (final_state (main env st)) =
        [l, Console_log Source_link, Prompts Flow_question,
         Exec_sync org_list_command, Prompts (Org_questions (orgChoices ?kept))] @ es"
      using loop(1) by (simp add: issued_since_def)
    then show ?thesis
      using head loop(2) by (simp del: append.simps)
  next
    case Declined
    have "main env st = Returned () (emit (Console_log Operation_cancelled) ?st4)"
      using assms(1) art listed Declined by (simp add: main_def emit_def)
    then have "issued_since st (final_state (main env st)) =
        [l, Console_log Source_link, Prompts Flow_question,
         Exec_sync org_list_command, Prompts (Org_questions (orgChoices ?kept))]
        @ [Console_log Operation_cancelled]"
      by (simp add: issued_since_def emit_def)
    then show ?thesis
      using head cancelled by (simp del: append.simps)
  next
    case Cancelled
    have "main env st = Returned () (emit (Console_log Operation_cancelled) ?st4)"
      using assms(1) art listed Cancelled by (simp add: main_def emit_def)
    then have "issued_since st (final_state (main env st)) =
        [l, Console_log Source_link, Prompts Flow_question,
         Exec_sync org_list_command, Prompts (Org_questions (orgChoices ?kept))]
        @ [Console_log Operation_cancelled]"
      by (simp add: issued_since_def emit_def)
    then show ?thesis
      using head cancelled by (simp del: append.simps)
  qed
qed

text \<open>
  C7. When the org-listing command fails, \<^verbatim>\<open>getAuthenticatedOrgs\<close> prints the error and
  the process exits with code 1 right after the command: \<^verbatim>\<open>main\<close> asks no org question
  and runs nothing else. When the display command fails for a selected org,
  \<^verbatim>\<open>getSfInstance\<close> prints the error and the process exits with code 1: in the loop,
  after the orgs before it have been processed, the trace ends with the announcement of
  that org, its display command and the error line, so that no flow of that org and
  nothing of any later org is processed.
\<close>

theorem listing_or_credential_failure_exits:
  "(execSync_parse env org_list_command (world st) = (Inl m, w)
    \<longrightarrow> getAuthenticatedOrgs env st =
          Exited 1 \<lparr>world = w, trace = trace st @
            [Exec_sync org_list_command, Console_error (Error_retrieving_orgs (Failure m))]\<rparr>)
 \<and> (prompt_flowNames (flow_entries env) = Some flowNames
      \<and> execSync_parse env org_list_command (world st) = (Inl m, w)
    \<longrightarrow> exit_code (main env st) = 1
        \<and> marks (issued_since st (final_state (main env st)))
            = [Asked Flow_question, Command org_list_command]
        \<and> last (issued_since st (final_state (main env st)))
            = Console_error (Error_retrieving_orgs (Failure m)))
 \<and> (execSync_parse env (org_display_command orgAlias) (world st) = (Inl m, w)
    \<longrightarrow> getSfInstance env orgAlias st =
          Exited 1 \<lparr>world = w, trace = trace st @
            [Exec_sync (org_display_command orgAlias),
             Console_error (Error_retrieving_org_details (Failure m))]\<rparr>)
 \<and> (orgs_loop env before flowNames st = Returned u st1
      \<and> execSync_parse env (org_display_command orgAlias) (world st1) = (Inl m, w)
    \<longrightarrow> orgs_loop env (before @ orgAlias # later) flowNames st =
          Exited 1 \<lparr>world = w, trace = trace st1 @
            [Console_log (Activating_flows_in_org orgAlias),
             Exec_sync (org_display_command orgAlias),
             Console_error (Error_retrieving_org_details (Failure m))]\<rparr>
        \<and> exit_code (orgs_loop env (before @ orgAlias # later) flowNames st) = 1)"
  by (simp add: getAuthenticatedOrgs_failure main_listing_failure getSfInstance_failure
      orgs_loop_credential_failure)

text \<open>A workstation without the command line tool; and three selected orgs of which the
  second is unknown to the tool: the first org's flow is activated, then the run ends.\<close>

theorem listing_or_credential_failure_exits_witness:
  "exit_code (main (double (\<lambda>cmd. Inl ''sfdx: not found'') [''FlowA''] (\<lambda>choices. Cancelled))
      (starting [])) = 1
 \<and> marks (issued_since (starting [])
      (final_state (main (double (\<lambda>cmd. Inl ''sfdx: not found'') [''FlowA'']
         (\<lambda>choices. Cancelled)) (starting []))))
    = [Asked Flow_question, Command org_list_command]
 \<and> exit_code (orgs_loop (double sfdx [] (\<lambda>choices. Cancelled))
      [JStr ''Org1'', JStr ''OrgB'', JStr ''Org2''] [''FlowA'']
      (starting [version_found ''301a3'' 3, definition_found ''300a'', acknowledged,
                 active_version ''301a3''])) = 1
 \<and> marks (issued_since
      (starting [version_found ''301a3'' 3, definition_found ''300a'', acknowledged,
                 active_version ''301a3''])
      (final_state (orgs_loop (double sfdx [] (\<lambda>choices. Cancelled))
         [JStr ''Org1'', JStr ''OrgB'', JStr ''Org2''] [''FlowA'']
         (starting [version_found ''301a3'' 3, definition_found ''300a'', acknowledged,
                    active_version ''301a3'']))))
    = [Command (org_display_command (JStr ''Org1'')), Lookup (toolingQuery ''FlowA''), Status,
       Command (org_display_command (JStr ''OrgB''))]"
proof -
  let ?bare = "double (\<lambda>cmd. Inl ''sfdx: not found'') [''FlowA''] (\<lambda>choices. Cancelled)"
  let ?env = "double sfdx [] (\<lambda>choices. Cancelled)"
  let ?world = "[version_found ''301a3'' 3, definition_found ''300a'', acknowledged,
                 active_version ''301a3'']"
  let ?st1 = "\<lparr>world = [] :: (string + jsval) list,
      trace = [Console_log (Activating_flows_in_org (JStr ''Org1'')),
               Exec_sync (org_display_command (JStr ''Org1'')),
               Axios_get (query_url (JStr ''https://org1'')) (request_headers (JStr ''t0k1''))
                 (toolingQuery ''FlowA''),
               Axios_get (query_url (JStr ''https://org1'')) (request_headers (JStr ''t0k1''))
                 (definitionQuery ''FlowA''),
               Axios_patch (definition_url (JStr ''https://org1'') (JStr ''300a''))
                 (metadata (JNum 3)) (request_headers (JStr ''t0k1'')),
               Axios_get (query_url (JStr ''https://org1'')) (request_headers (JStr ''t0k1''))
                 (verificationQuery (JStr ''300a'')),
               Console_log (Successfully_activated ''FlowA'' (JNum 3))]\<rparr>"
  have entered: "prompt_flowNames (flow_entries ?bare) = Some [''FlowA'']"
    by (simp add: double_def validate_flowNames_def format_flowNames_def trim_def
        is_whitespace_def)
  have no_tool: "execSync_parse ?bare org_list_command (world (starting []))
      = (Inl ''sfdx: not found'', [])"
    by (simp add: double_def starting_def)
  have first_org: "orgs_loop ?env [JStr ''Org1''] [''FlowA''] (starting ?world)
      = Returned () ?st1"
    by (simp add: step_defs double_defs read_defs sfdx_defs getSfInstance_def call_exec_def
        instance_of_def)
  have unknown: "execSync_parse ?env (org_display_command (JStr ''OrgB'')) (world ?st1)
      = (Inl ''Command failed'', [])"
    by (simp add: double_def sfdx_defs)
  note listing = listing_or_credential_failure_exits
    [THEN conjunct2, THEN conjunct1, rule_format, OF conjI [OF entered no_tool]]
  note credential = listing_or_credential_failure_exits
    [THEN conjunct2, THEN conjunct2, THEN conjunct2, rule_format,
     OF conjI [OF first_org unknown], where later = "[JStr ''Org2'']"]
  from listing credential show ?thesis
    by (simp add: marks_Cons issued_since_def starting_def)
qed

text \<open>
  C8. When the listing command yields a list of org entries, \<^verbatim>\<open>getAuthenticatedOrgs\<close>
  returns exactly the entries whose \<^verbatim>\<open>connectedStatus\<close> is the string \<^verbatim>\<open>Connected\<close>, in
  the order of the listing; and the one org question that \<^verbatim>\<open>main\<close> asks offers exactly
  those entries, by their alias, as choices.
\<close>

theorem only_connected_orgs_are_choices:
  assumes "execSync_parse env org_list_command (world st) = (Inr parsed, w)"
    and "own_prop (own_prop parsed ''result'') ''nonScratchOrgs'' = JArr orgs"
    and "list_all (\<lambda>org. \<not> nullish org) orgs"
  shows "getAuthenticatedOrgs env st =
           Returned (filter (\<lambda>org. own_prop org ''connectedStatus'' = JStr ''Connected'') orgs)
             \<lparr>world = w, trace = trace st @ [Exec_sync org_list_command]\<rparr>
       \<and> (prompt_flowNames (flow_entries env) = Some flowNames
          \<longrightarrow> questions_asked (marks (issued_since st (final_state (main env st)))) =
               [Flow_question,
                Org_questions
                  (map (\<lambda>org. (own_prop org ''alias'', own_prop org ''alias''))
                    (filter (\<lambda>org. own_prop org ''connectedStatus'' = JStr ''Connected'')
                       orgs))])"
  using getAuthenticatedOrgs_connected [OF assms] main_choices [OF _ assms]
  by (simp add: orgChoices_def)

text \<open>The workstation with two connected orgs and one whose token has expired.\<close>

theorem only_connected_orgs_are_choices_witness:
  "getAuthenticatedOrgs (double sfdx [''FlowA''] (\<lambda>choices. Cancelled)) (starting [])
     = Returned [listed_org ''Org1'' ''Connected'', listed_org ''Org2'' ''Connected'']
         \<lparr>world = [], trace = [Exec_sync org_list_command]\<rparr>
 \<and> questions_asked (marks (issued_since (starting [])
      (final_state (main (double sfdx [''FlowA''] (\<lambda>choices. Cancelled)) (starting [])))))
     = [Flow_question,
        Org_questions [(JStr ''Org1'', JStr ''Org1''), (JStr ''Org2'', JStr ''Org2'')]]"
proof -
  let ?env = "double sfdx [''FlowA''] (\<lambda>choices. Cancelled)"
  let ?orgs = "[listed_org ''Org1'' ''Connected'', listed_org ''Old'' ''RefreshTokenAuthError'',
                listed_org ''Org2'' ''Connected'']"
  have listing: "execSync_parse ?env org_list_command (world (starting []))
      = (Inr (JObj [(''result'', JObj [(''nonScratchOrgs'', JArr ?orgs)])]), [])"
    by (simp add: double_def starting_def sfdx_def)
  have orgs: "own_prop (own_prop (JObj [(''result'', JObj [(''nonScratchOrgs'', JArr ?orgs)])])
      ''result'') ''nonScratchOrgs'' = JArr ?orgs"
    by simp
  have records: "list_all (\<lambda>org. \<not> nullish org) ?orgs"
    by (simp add: listed_org_def)
  have entered: "prompt_flowNames (flow_entries ?env) = Some [''FlowA'']"
    by (simp add: double_def validate_flowNames_def format_flowNames_def trim_def
        is_whitespace_def)
  from only_connected_orgs_are_choices [OF listing orgs records, where flowNames = "[''FlowA'']"]
    entered
  show ?thesis
    by (simp add: listed_org_def starting_def)
qed

section \<open>The flow names the operator enters\<close>

lemma split_semicolons_not_Nil [simp]: "split_semicolons s \<noteq> []"
  by (induction s) (simp_all split: list.splits)

lemma split_semicolons_piece:
  "CHR '';'' \<notin> set n \<Longrightarrow> split_semicolons (n @ CHR '';'' # rest) = n # split_semicolons rest"
  by (induction n) (auto split: list.splits)

lemma split_semicolons_last: "CHR '';'' \<notin> set n \<Longrightarrow> split_semicolons n = [n]"
  by (induction n) (auto split: list.splits)

lemma split_join:
  "names \<noteq> [] \<Longrightarrow> list_all (\<lambda>n. CHR '';'' \<notin> set n) names \<Longrightarrow>
   split_semicolons (join_semicolons names) = names"
  by (induction names rule: join_semicolons.induct)
    (simp_all add: split_semicolons_last split_semicolons_piece)

lemma trim_empty_iff: "(trim n = []) = list_all is_whitespace n"
proof -
  have "(trim n = []) = (\<forall>c \<in> set (dropWhile is_whitespace n). is_whitespace c)"
    by (simp add: trim_def dropWhile_eq_Nil_conv)
  also have "\<dots> = (dropWhile is_whitespace n = [])"
  proof
    assume all: "\<forall>c \<in> set (dropWhile is_whitespace n). is_whitespace c"
    show "dropWhile is_whitespace n = []"
    proof (rule ccontr)
      assume "dropWhile is_whitespace n \<noteq> []"
      then have "\<not> is_whitespace (hd (dropWhile is_whitespace n))"
          and "hd (dropWhile is_whitespace n) \<in> set (dropWhile is_whitespace n)"
        by (simp_all add: hd_dropWhile)
      with all show False by blast
    qed
  qed (auto dest: set_dropWhileD)
  also have "\<dots> = list_all is_whitespace n"
    by (simp add: dropWhile_eq_Nil_conv list_all_iff)
  finally show ?thesis .
qed

lemma trim_ends:
  assumes "trim n \<noteq> []"
  shows "\<not> is_whitespace (hd (trim n)) \<and> \<not> is_whitespace (last (trim n))"
proof -
  let ?m = "dropWhile is_whitespace n"
  let ?d = "dropWhile is_whitespace (rev ?m)"
  have d: "?d \<noteq> []" using assms by (simp add: trim_def)
  have m: "?m \<noteq> []"
  proof
    assume "?m = []"
    then have "?d = []" by (simp only: rev.simps dropWhile.simps)
    with d show False by contradiction
  qed
  have "last (trim n) = hd ?d"
    using d by (simp add: trim_def last_rev)
  moreover have "\<not> is_whitespace (hd ?d)"
    using d by (rule hd_dropWhile)
  moreover have "hd (trim n) = last ?d"
    using d by (simp add: trim_def hd_rev)
  moreover have "last ?d = last (rev ?m)"
  proof -
    have "rev ?m = takeWhile is_whitespace (rev ?m) @ ?d" by simp
    then have "last (rev ?m) = last (takeWhile is_whitespace (rev ?m) @ ?d)" by simp
    also have "\<dots> = last ?d" using d by (rule last_appendR)
    finally show ?thesis by simp
  qed
  moreover have "last (rev ?m) = hd ?m"
    using m by (simp add: last_rev)
  moreover have "\<not> is_whitespace (hd ?m)"
    using m by (rule hd_dropWhile)
  ultimately show ?thesis by simp
qed

lemma prompt_flowNames_not_empty: "prompt_flowNames entries \<noteq> Some []"
  by (induction entries) (simp_all add: format_flowNames_def)

text \<open>
  C5, as amended. An accepted input made of \<open>N\<close> pieces separated by semicolons (\<open>N \<ge> 1\<close>)
  gives the loop a list of exactly \<open>N\<close> entries, the pieces in the order entered, each
  trimmed of the whitespace around it. An entry is empty exactly when its piece is empty
  or all whitespace: such a piece is neither dropped nor refused; an entry that is not
  empty neither starts nor ends with whitespace. The empty input is refused and the
  question stays open for the next entry, and the list given to the loop is never empty.
\<close>

theorem flow_names_entered:
  "(names \<noteq> [] \<and> list_all (\<lambda>n. CHR '';'' \<notin> set n) names \<and> join_semicolons names \<noteq> []
    \<longrightarrow> prompt_flowNames (join_semicolons names # later) = Some (map trim names)
        \<and> length (map trim names) = length names)
 \<and> (trim name = []) = list_all is_whitespace name
 \<and> (trim name \<noteq> []
    \<longrightarrow> \<not> is_whitespace (hd (trim name)) \<and> \<not> is_whitespace (last (trim name)))
 \<and> prompt_flowNames ([] # later) = prompt_flowNames later
 \<and> prompt_flowNames entries \<noteq> Some []"
  by (simp add: split_join validate_flowNames_def format_flowNames_def trim_empty_iff trim_ends
      prompt_flowNames_not_empty)

text \<open>An operator who first submits nothing, then two names with blanks around the
  second.\<close>

theorem flow_names_entered_witness:
  "prompt_flowNames [[], ''FlowA; FlowB '', ''FlowC''] = Some [''FlowA'', ''FlowB'']
   \<and> \<not> is_whitespace (hd (trim '' FlowB '')) \<and> \<not> is_whitespace (last (trim '' FlowB ''))"
  using flow_names_entered [where names = "[''FlowA'', '' FlowB '']" and later = "[''FlowC'']"
      and name = "'' FlowB ''" and entries = "[]"]
    flow_names_entered [where names = "[''x'']" and later = "[''FlowA; FlowB '', ''FlowC'']"
      and name = "'' FlowB ''" and entries = "[]"]
  by (simp add: trim_def is_whitespace_def)

text \<open>C5 as stated fails: two adjacent semicolons, and an input of one blank, are accepted
  and give the loop an empty flow name.\<close>

theorem blank_flow_name_counterexample:
  "prompt_flowNames [''FlowA;;FlowB''] = Some [''FlowA'', [], ''FlowB'']
   \<and> prompt_flowNames ['' ''] = Some [[]]"
  by (simp add: validate_flowNames_def format_flowNames_def trim_def is_whitespace_def)

end
